theory Spec2Isabelle
  imports Complex_Main
begin

section \<open>The control-loop game of \<open>src/components/Game.vue\<close>\<close>

text \<open>
  The component keeps its state in module-level variables and Vue refs and mutates
  them from four entry points: the click handlers \<open>startStop\<close> and \<open>reset\<close>, the
  interval callbacks (\<open>gameLoop\<close> and the countdown callback) and the watcher on
  \<open>loop_active\<close>. The embedding passes one record of all these variables through
  every function.

  JavaScript numbers are modelled as exact reals: the rounding of IEEE-754 doubles is
  not part of the model. \<open>NaN\<close>, which the source uses only as the "no value" filler
  of the two chart series, is \<open>None\<close> in a series of \<open>real option\<close>. The chart object
  (\<open>updateChart\<close>) only receives the two series and is left out.
\<close>

subsection \<open>Constants\<close>

definition loop_ms :: real where
  "loop_ms = 50"

definition display_seconds :: real where
  "display_seconds = 10"

definition timeout_seconds :: real where
  "timeout_seconds = 15"

definition margin :: real where
  "margin = 0.15"

definition countdown_seconds :: int where
  "countdown_seconds = 3"

definition listSize :: nat where
  "listSize = nat \<lfloor>(display_seconds * 1000) / loop_ms\<rfloor>"

definition dt :: real where
  "dt = loop_ms / 1000"

text \<open>
  \<open>Array.from({ length: listSize }, (_, i) => -display_seconds + i * dt)\<close>, then the
  assignment to the last index.
\<close>

definition timeVector :: "real list" where
  "timeVector =
     (map (\<lambda>i. - display_seconds + real i * dt) [0..<listSize]) [listSize - 1 := 0]"

datatype plant_mode = PT1 | PT2

definition MODE :: plant_mode where
  "MODE = PT2"

definition K :: real where
  "K = 1.0"

definition T :: real where
  "T = 1.0"

definition D :: real where
  "D = 0.5"

definition wn :: real where
  "wn = 2.0"

definition Kp :: real where
  "Kp = 3.28"

definition Ki :: real where
  "Ki = 3.38"

definition Kd :: real where
  "Kd = 1.48"

subsection \<open>State\<close>

text \<open>
  The callbacks the component registers with \<open>window.setInterval\<close>: the game loop
  (every \<open>loop_ms\<close>) and the countdown (every second).
\<close>

datatype handler = GameLoop | Countdown

text \<open>
  The fields up to \<open>countdownTimer\<close> are the variables of the script, under their
  names. The last three are the environment the script runs in: \<open>watched\<close> is the value
  of \<open>loop_active\<close> the watcher has last seen, \<open>timers\<close> the browser's table of active
  intervals and \<open>nextTimer\<close> the next interval id the browser hands out.
\<close>

record state =
  channel1 :: "real option list"
  channel2 :: "real option list"
  loop_active :: bool
  intervalId :: "nat option"
  userInput :: real
  game_mode :: string
  target_function :: string
  score :: int
  countdown :: int
  finished :: bool
  aborted :: bool
  t :: real
  y1 :: real
  y2 :: real
  integral :: real
  lastError :: real
  countdownTimer :: "nat option"
  watched :: bool
  timers :: "nat \<Rightarrow> handler option"
  nextTimer :: nat

definition init :: state where
  "init =
     \<lparr>channel1 = replicate listSize None,
      channel2 = replicate listSize None,
      loop_active = False,
      intervalId = None,
      userInput = 0,
      game_mode = ''humanil'',
      target_function = ''1'',
      score = 0,
      countdown = - 1,
      finished = False,
      aborted = False,
      t = 0,
      y1 = 0,
      y2 = 0,
      integral = 0,
      lastError = 0,
      countdownTimer = None,
      watched = False,
      timers = (\<lambda>_. None),
      nextTimer = 1\<rparr>"

subsection \<open>Browser timers\<close>

definition setInterval :: "handler \<Rightarrow> state \<Rightarrow> nat \<times> state" where
  "setInterval h s =
     (nextTimer s, s\<lparr>timers := (timers s)(nextTimer s := Some h), nextTimer := nextTimer s + 1\<rparr>)"

text \<open>\<open>clearInterval\<close> of \<open>null\<close> or of an id that is not active does nothing.\<close>

definition clearInterval :: "nat option \<Rightarrow> state \<Rightarrow> state" where
  "clearInterval i s =
     (case i of None \<Rightarrow> s | Some n \<Rightarrow> s\<lparr>timers := (timers s)(n := None)\<rparr>)"

subsection \<open>Rolling buffer\<close>

text \<open>\<open>push\<close> appends at the end, \<open>shift\<close> removes the first element.\<close>

definition addValues :: "real \<Rightarrow> real \<Rightarrow> state \<Rightarrow> state" where
  "addValues value1 value2 s =
     (let c1 = channel1 s @ [Some value1];
          c1' = (if length c1 > listSize then tl c1 else c1);
          c2 = channel2 s @ [Some value2];
          c2' = (if length c2 > listSize then tl c2 else c2)
      in s\<lparr>channel1 := c1', channel2 := c2'\<rparr>)"

subsection \<open>The watcher on \<open>loop_active\<close>\<close>

definition watch_loop_active :: "bool \<Rightarrow> state \<Rightarrow> state" where
  "watch_loop_active newVal s =
     (if newVal then
        (let (i, s1) = setInterval GameLoop s in s1\<lparr>intervalId := Some i\<rparr>)
      else
        (case intervalId s of
           None \<Rightarrow> s
         | Some i \<Rightarrow>
             (let s1 = (clearInterval (Some i) s)\<lparr>intervalId := None\<rparr>;
                  s2 = (if \<not> aborted s1 then s1\<lparr>finished := True\<rparr> else s1)
              in s2\<lparr>aborted := False\<rparr>)))"

text \<open>
  Vue runs a watcher's callback after the handler that changed the ref has returned,
  and only when the ref's value differs from the one the watcher saw last.
\<close>

definition flush :: "state \<Rightarrow> state" where
  "flush s =
     (if loop_active s \<noteq> watched s
      then watch_loop_active (loop_active s) (s\<lparr>watched := loop_active s\<rparr>)
      else s)"

subsection \<open>Reset\<close>

definition reset :: "state \<Rightarrow> state" where
  "reset s =
     (let s1 = s\<lparr>score := 0, userInput := 0\<rparr>;
          s2 = (if loop_active s1 then s1\<lparr>aborted := True\<rparr> else s1)
      in s2\<lparr>loop_active := False,
            finished := False,
            channel1 := replicate listSize None,
            channel2 := replicate listSize None,
            t := 0,
            y1 := 0,
            y2 := 0,
            integral := 0,
            lastError := 0\<rparr>)"

subsection \<open>Target function, controller and plant\<close>

text \<open>
  JavaScript's \<open>%\<close> on numbers: the remainder has the sign of the dividend (the
  quotient is truncated towards zero). The source only divides by the literal 1.
\<close>

definition trunc :: "real \<Rightarrow> int" where
  "trunc x = (if x < 0 then \<lceil>x\<rceil> else \<lfloor>x\<rfloor>)"

definition js_rem :: "real \<Rightarrow> real \<Rightarrow> real" where
  "js_rem x y = x - y * of_int (trunc (x / y))"

definition targetFunction :: "state \<Rightarrow> real \<Rightarrow> real" where
  "targetFunction s x =
     (let freq = 0.4 in
      if target_function s = ''1'' then
        1 - 4 * \<bar>js_rem (((x + 0.25 / freq) * freq) / 2) 1 - 0.5\<bar>
      else if target_function s = ''2'' then
        2 * js_rem ((x + 0.25 / freq) * freq) 1 - 1
      else if target_function s = ''3'' then
        sin (0.3 * x) + 0.3 * sin (2 * x)
      else sin (0.3 * x))"

definition controller :: "real \<Rightarrow> real \<Rightarrow> state \<Rightarrow> real \<times> state" where
  "controller target actual s =
     (let error = target - actual;
          s1 = s\<lparr>integral := integral s + error * dt\<rparr>;
          derivative = (error - lastError s1) / dt;
          s2 = s1\<lparr>lastError := error\<rparr>;
          u = Kp * error + Ki * integral s2 + Kd * derivative
      in (u, s2))"

definition updateSystem :: "real \<Rightarrow> state \<Rightarrow> real \<times> state" where
  "updateSystem u s =
     (let s' =
        (if MODE = PT1 then
           s\<lparr>y1 := y1 s + (dt / T) * (K * u - y1 s)\<rparr>
         else
           (let s1 = s\<lparr>y1 := y1 s + dt * y2 s\<rparr>
            in s1\<lparr>y2 := y2 s1 + dt * (wn * wn * (K * u - y1 s1) - 2 * D * wn * y2 s1)\<rparr>))
      in (y1 s', s'))"

subsection \<open>Start/stop and the countdown\<close>

definition startStop :: "state \<Rightarrow> state" where
  "startStop s =
     (if loop_active s then s\<lparr>loop_active := False\<rparr>
      else if game_mode s = ''closedL-auto'' then s\<lparr>loop_active := True\<rparr>
      else if countdownTimer s \<noteq> None then
        (clearInterval (countdownTimer s) s)
          \<lparr>countdownTimer := None, countdown := - 1, loop_active := False\<rparr>
      else
        (let s1 = s\<lparr>countdown := countdown_seconds, loop_active := False\<rparr>;
             (i, s2) = setInterval Countdown s1
         in s2\<lparr>countdownTimer := Some i\<rparr>))"

text \<open>The callback \<open>startStop\<close> registers for the countdown.\<close>

definition countdownTick :: "state \<Rightarrow> state" where
  "countdownTick s =
     (let s1 = s\<lparr>countdown := countdown s - 1\<rparr>
      in if countdown s1 \<le> 0 then
           (clearInterval (countdownTimer s1) s1)
             \<lparr>countdownTimer := None, countdown := - 1, loop_active := True\<rparr>
         else s1)"

subsection \<open>One tick of the game loop\<close>

definition gameLoop :: "state \<Rightarrow> state" where
  "gameLoop s0 =
     (let target = targetFunction s0 (t s0);
          s1 = s0\<lparr>t := t s0 + dt\<rparr>;
          s2 = (if t s1 \<ge> timeout_seconds then s1\<lparr>loop_active := False\<rparr> else s1);
          (input, target', s3) =
            (if game_mode s2 = ''humanil'' \<or> game_mode s2 = ''openL'' then
               (let input = userInput s2 / 100
                in (input, if game_mode s2 = ''openL'' then input else target, s2))
             else if game_mode s2 = ''closedL'' \<or> game_mode s2 = ''closedL-auto'' then
               (let target' =
                      (if game_mode s2 = ''closedL'' then userInput s2 / 100 else target);
                    (u, s') = controller target' (y1 s2) s2
                in (u, target', s'))
             else (0, target, s2));
          (output, s4) = updateSystem input s3;
          s5 =
            (if game_mode s4 = ''humanil'' \<or> game_mode s4 = ''closedL-auto'' then
               (let error = target' - output
                in if \<bar>error\<bar> < margin then s4\<lparr>score := score s4 + 1\<rparr> else s4)
             else s4)
      in addValues target' output s5)"

subsection \<open>Events\<close>

text \<open>
  What can happen to the component: a click on the start/stop button (disabled while
  \<open>finished\<close>), a click on reset, an interval firing, and the three form controls with
  the \<open>disabled\<close> conditions and value ranges of the template. A disabled control
  and an interval that is not active leave the state as it is. After each handler
  the watcher runs.
\<close>

datatype event =
  ClickStartStop
  | ClickReset
  | Fire nat
  | SetUserInput int
  | SetGameMode string
  | SetTargetFunction string

definition step :: "event \<Rightarrow> state \<Rightarrow> state" where
  "step e s =
     (case e of
        ClickStartStop \<Rightarrow> if finished s then s else flush (startStop s)
      | ClickReset \<Rightarrow> flush (reset s)
      | Fire i \<Rightarrow>
          (case timers s i of
             None \<Rightarrow> s
           | Some GameLoop \<Rightarrow> flush (gameLoop s)
           | Some Countdown \<Rightarrow> flush (countdownTick s))
      | SetUserInput v \<Rightarrow>
          if game_mode s = ''closedL-auto'' \<or> v < - 150 \<or> 150 < v then s
          else s\<lparr>userInput := real_of_int v\<rparr>
      | SetGameMode m \<Rightarrow>
          if loop_active s \<or> m \<notin> set [''openL'', ''humanil'', ''closedL'', ''closedL-auto'']
          then s
          else s\<lparr>game_mode := m\<rparr>
      | SetTargetFunction f \<Rightarrow>
          if loop_active s \<or> game_mode s = ''openL'' \<or> game_mode s = ''closedL''
             \<or> f \<notin> set [''0'', ''1'', ''2'', ''3'']
          then s
          else s\<lparr>target_function := f\<rparr>)"

fun run :: "event list \<Rightarrow> state \<Rightarrow> state" where
  "run [] s = s"
| "run (e # es) s = run es (step e s)"

subsection \<open>Notions used to state the properties\<close>

text \<open>
  What holds of the component between two events: the watcher has seen the current
  value of \<open>loop_active\<close>; \<open>aborted\<close> is clear; the loop is active exactly when the game
  interval is held; \<open>intervalId\<close> and \<open>countdownTimer\<close> name exactly the active intervals
  of the browser; interval ids are fresh; both series have the capacity's length; the
  score is not negative.
\<close>

definition inv :: "state \<Rightarrow> bool" where
  "inv s \<longleftrightarrow>
     watched s = loop_active s \<and> \<not> aborted s
     \<and> (loop_active s \<longleftrightarrow> intervalId s \<noteq> None)
     \<and> (\<forall>i. timers s i = Some GameLoop \<longleftrightarrow> intervalId s = Some i)
     \<and> (\<forall>i. timers s i = Some Countdown \<longleftrightarrow> countdownTimer s = Some i)
     \<and> (\<forall>i. timers s i \<noteq> None \<longrightarrow> i < nextTimer s)
     \<and> length (channel1 s) = listSize \<and> length (channel2 s) = listSize
     \<and> 0 \<le> score s"

text \<open>A sequence of calls of \<open>addValues\<close>, in order.\<close>

fun addAll :: "(real \<times> real) list \<Rightarrow> state \<Rightarrow> state" where
  "addAll [] s = s"
| "addAll (p # ps) s = addAll ps (addValues (fst p) (snd p) s)"

text \<open>The simulation state: clock, plant, controller, score and the two series.\<close>

definition sim ::
  "state \<Rightarrow> real \<times> real \<times> real \<times> real \<times> real \<times> int \<times> real option list \<times> real option list"
  where
  "sim s = (t s, y1 s, y2 s, integral s, lastError s, score s, channel1 s, channel2 s)"

section \<open>Controller and plant\<close>

lemma dt_val: "dt = 1 / 20"
  by (simp add: dt_def loop_ms_def)

lemma listSize_val: "listSize = 200"
  by (simp add: listSize_def display_seconds_def loop_ms_def)

text \<open>
  C5. One controller invocation computes \<open>error = target - measured\<close>, adds
  \<open>error * dt\<close> to the integral with no clamping, takes the derivative against the
  previous invocation's error, stores the error, and returns
  \<open>Kp * error + Ki * integral + Kd * derivative\<close> with \<open>dt = 0.05\<close>, \<open>Kp = 3.28\<close>,
  \<open>Ki = 3.38\<close>, \<open>Kd = 1.48\<close>; of the state only \<open>integral\<close> and \<open>lastError\<close> change.
\<close>

theorem controller_pid:
  "controller target measured s =
     (3.28 * (target - measured)
        + 3.38 * (integral s + (target - measured) * 0.05)
        + 1.48 * (((target - measured) - lastError s) / 0.05),
      s\<lparr>integral := integral s + (target - measured) * 0.05,
        lastError := target - measured\<rparr>)"
  by (simp add: controller_def Let_def dt_val Kp_def Ki_def Kd_def)

text \<open>
  C6. In the second-order mode (the value of \<open>MODE\<close>), one plant step with input \<open>u\<close>
  and \<open>dt = 0.05\<close> sets \<open>y1\<close> to \<open>y1 + dt * y2\<close> with the old \<open>y2\<close>, then \<open>y2\<close> to
  \<open>y2 + dt * (wn * wn * (K * u - y1) - 2 * D * wn * y2)\<close> with the new \<open>y1\<close>, for
  \<open>K = 1.0\<close>, \<open>D = 0.5\<close>, \<open>wn = 2.0\<close>, and returns the new \<open>y1\<close>. The step is
  deterministic: the returned value and the next \<open>(y1, y2)\<close> depend on the current
  \<open>(y1, y2)\<close> and \<open>u\<close> only.
\<close>

theorem updateSystem_pt2:
  "updateSystem u s =
     (y1 s + 0.05 * y2 s,
      s\<lparr>y1 := y1 s + 0.05 * y2 s,
        y2 := y2 s + 0.05 * (2.0 * 2.0 * (1.0 * u - (y1 s + 0.05 * y2 s)) - 2 * 0.5 * 2.0 * y2 s)\<rparr>)
   \<and> (\<forall>s'. y1 s' = y1 s \<and> y2 s' = y2 s \<longrightarrow>
          fst (updateSystem u s') = fst (updateSystem u s)
          \<and> y1 (snd (updateSystem u s')) = y1 (snd (updateSystem u s))
          \<and> y2 (snd (updateSystem u s')) = y2 (snd (updateSystem u s)))"
  by (simp add: updateSystem_def Let_def MODE_def dt_val K_def D_def wn_def)

theorem updateSystem_pt2_witness:
  "updateSystem 1 init =
     (0, init\<lparr>y1 := 0, y2 := 1 / 5\<rparr>)
   \<and> y1 (init\<lparr>score := 7\<rparr>) = y1 init \<and> y2 (init\<lparr>score := 7\<rparr>) = y2 init
   \<and> fst (updateSystem 1 (init\<lparr>score := 7\<rparr>)) = fst (updateSystem 1 init)
   \<and> y1 (snd (updateSystem 1 (init\<lparr>score := 7\<rparr>))) = y1 (snd (updateSystem 1 init))
   \<and> y2 (snd (updateSystem 1 (init\<lparr>score := 7\<rparr>))) = y2 (snd (updateSystem 1 init))"
  using updateSystem_pt2 [of 1 init] by (simp add: init_def)

section \<open>The triangle waveform\<close>

lemma js_rem_nonneg: "0 \<le> x \<Longrightarrow> js_rem x 1 = frac x"
  by (simp add: js_rem_def trunc_def frac_def)

lemma triangle_formula:
  assumes "target_function s = ''1''" "0 \<le> x"
  shows "targetFunction s x = 1 - 4 * \<bar>frac ((x + 0.25 / 0.4) * 0.4 / 2) - 0.5\<bar>"
  using assms by (simp add: targetFunction_def js_rem_nonneg)

lemma triangle_period:
  assumes "target_function s = ''1''" "0 \<le> x"
  shows "targetFunction s (x + 5) = targetFunction s x"
proof -
  define a where "a = (x + 0.25 / 0.4) * 0.4 / 2"
  have e: "(x + 5 + 0.25 / 0.4) * 0.4 / 2 = a + 1"
    unfolding a_def by (simp add: field_simps)
  have f: "frac (a + 1) = frac a"
    by (simp add: frac_def)
  have "targetFunction s (x + 5) = 1 - 4 * \<bar>frac (a + 1) - 0.5\<bar>"
    using assms triangle_formula[of s "x + 5"] unfolding e by simp
  moreover have "targetFunction s x = 1 - 4 * \<bar>frac a - 0.5\<bar>"
    using assms triangle_formula[of s x] unfolding a_def by simp
  ultimately show ?thesis
    unfolding f by simp
qed

lemma triangle_bound:
  assumes "target_function s = ''1''" "0 \<le> x"
  shows "- 1 \<le> targetFunction s x \<and> targetFunction s x \<le> 1"
proof -
  let ?u = "frac ((x + 0.25 / 0.4) * 0.4 / 2)"
  have "0 \<le> ?u" "?u < 1"
    by (rule frac_ge_0, rule frac_lt_1)
  then show ?thesis
    using triangle_formula[OF assms] by (simp add: abs_if)
qed

lemma triangle_at_0:
  assumes "target_function s = ''1''"
  shows "targetFunction s 0 = - 0.5"
  using assms by (simp add: targetFunction_def js_rem_def trunc_def)

text \<open>
  C3, as the spec states it, fails: with \<open>f = 0.4\<close> the argument of \<open>mod 1\<close> is
  \<open>(t + 0.625) * 0.2\<close>, which advances by 0.5 over 2.5 seconds, so the waveform is
  not 2.5-periodic, and at \<open>t = 0\<close> its value is \<open>-0.5\<close>, not 1.
\<close>

theorem triangle_counterexample:
  "targetFunction init 0 \<noteq> 1 \<and> targetFunction init (0 + 2.5) \<noteq> targetFunction init 0"
  by (simp add: targetFunction_def init_def js_rem_def trunc_def)

text \<open>
  C3, amended. For the triangle waveform (\<open>target_function = '1'\<close>) and every time
  \<open>t \<ge> 0\<close>: the value is \<open>1 - 4 * |((t + 0.25 / f) * f / 2) mod 1 - 0.5|\<close> with
  \<open>f = 0.4\<close>; it is periodic with period \<open>2 / f = 5\<close>; its value at \<open>t = 0\<close> is \<open>-0.5\<close>;
  and it lies in \<open>[-1, 1]\<close>.
\<close>

theorem triangle_waveform:
  assumes "target_function s = ''1''" "0 \<le> x"
  shows "targetFunction s x = 1 - 4 * \<bar>frac ((x + 0.25 / 0.4) * 0.4 / 2) - 0.5\<bar>
    \<and> targetFunction s (x + 5) = targetFunction s x
    \<and> targetFunction s 0 = - 0.5
    \<and> - 1 \<le> targetFunction s x \<and> targetFunction s x \<le> 1"
  using triangle_formula[OF assms] triangle_period[OF assms] triangle_bound[OF assms]
    triangle_at_0[OF assms(1)]
  by simp

theorem triangle_waveform_witness:
  "target_function init = ''1'' \<and> (0::real) \<le> 1
    \<and> targetFunction init 1 = 1 - 4 * \<bar>frac ((1 + 0.25 / 0.4) * 0.4 / 2) - 0.5\<bar>
    \<and> targetFunction init (1 + 5) = targetFunction init 1
    \<and> targetFunction init 0 = - 0.5
    \<and> - 1 \<le> targetFunction init 1 \<and> targetFunction init 1 \<le> 1"
proof -
  have h: "target_function init = ''1''"
    by (simp add: init_def)
  show ?thesis
    using h triangle_waveform [OF h, of 1] by simp
qed

section \<open>The time axis\<close>

text \<open>
  C4, as the spec states it, fails: the vector is built with step \<open>dt\<close> from \<open>-10\<close>, so
  its 200 points end at \<open>-0.05\<close>; overwriting the last one with 0 leaves a gap of
  \<open>0.1\<close> before it, twice the step between the other points.
\<close>

theorem timeVector_counterexample:
  "timeVector ! 199 - timeVector ! 198 \<noteq> timeVector ! 1 - timeVector ! 0"
  by (simp add: timeVector_def listSize_val display_seconds_def dt_val)

text \<open>
  C4, amended. The time-axis vector has \<open>N = 200\<close> points; point \<open>i\<close>, for \<open>i < 199\<close>, is
  \<open>-10 + i * 0.05\<close> (evenly spaced from \<open>-10\<close> to \<open>-0.1\<close>), and the final point is
  exactly 0.
\<close>

theorem timeVector_points:
  "listSize = 200 \<and> length timeVector = 200
    \<and> (\<forall>i<199. timeVector ! i = - 10 + real i * 0.05)
    \<and> timeVector ! 199 = 0 \<and> last timeVector = 0"
  by (simp add: timeVector_def listSize_val display_seconds_def dt_val last_conv_nth)

theorem timeVector_points_witness:
  "(198::nat) < 199 \<and> timeVector ! 198 = - 1 / 10 \<and> timeVector ! 0 = - 10
    \<and> length timeVector = 200 \<and> last timeVector = 0"
  using timeVector_points by simp

section \<open>The rolling buffer and the invariant of the component\<close>

lemma last_push_shift:
  "0 < n \<Longrightarrow> last (if n < length (xs @ [a]) then tl (xs @ [a]) else xs @ [a]) = a"
  by (cases xs) simp_all

lemma length_push_shift:
  "length xs = n \<Longrightarrow> length (if n < length (xs @ [a]) then tl (xs @ [a]) else xs @ [a]) = n"
  by simp

lemma addValues_channel1:
  "channel1 (addValues a b s) =
     (if listSize < length (channel1 s @ [Some a]) then tl (channel1 s @ [Some a])
      else channel1 s @ [Some a])"
  by (simp add: addValues_def Let_def)

lemma addValues_channel2:
  "channel2 (addValues a b s) =
     (if listSize < length (channel2 s @ [Some b]) then tl (channel2 s @ [Some b])
      else channel2 s @ [Some b])"
  by (simp add: addValues_def Let_def)

lemma addValues_last:
  "last (channel1 (addValues a b s)) = Some a" "last (channel2 (addValues a b s)) = Some b"
  unfolding addValues_channel1 addValues_channel2
  by (rule last_push_shift, simp add: listSize_val)+

lemma addValues_length:
  "length (channel1 s) = listSize \<Longrightarrow> length (channel1 (addValues a b s)) = listSize"
  "length (channel2 s) = listSize \<Longrightarrow> length (channel2 (addValues a b s)) = listSize"
  unfolding addValues_channel1 addValues_channel2 by (rule length_push_shift, assumption)+

lemma addValues_frame:
  "loop_active (addValues a b s) = loop_active s"
  "intervalId (addValues a b s) = intervalId s"
  "userInput (addValues a b s) = userInput s"
  "game_mode (addValues a b s) = game_mode s"
  "target_function (addValues a b s) = target_function s"
  "score (addValues a b s) = score s"
  "countdown (addValues a b s) = countdown s"
  "finished (addValues a b s) = finished s"
  "aborted (addValues a b s) = aborted s"
  "t (addValues a b s) = t s"
  "y1 (addValues a b s) = y1 s"
  "y2 (addValues a b s) = y2 s"
  "integral (addValues a b s) = integral s"
  "lastError (addValues a b s) = lastError s"
  "countdownTimer (addValues a b s) = countdownTimer s"
  "watched (addValues a b s) = watched s"
  "timers (addValues a b s) = timers s"
  "nextTimer (addValues a b s) = nextTimer s"
  by (simp_all add: addValues_def Let_def)

lemmas gameLoop_unfold =
  gameLoop_def Let_def addValues_frame controller_def updateSystem_def MODE_def split_beta

lemma gameLoop_length:
  "length (channel1 s) = listSize \<Longrightarrow> length (channel1 (gameLoop s)) = listSize"
  "length (channel2 s) = listSize \<Longrightarrow> length (channel2 (gameLoop s)) = listSize"
  by (simp_all add: gameLoop_unfold addValues_length)

lemma gameLoop_shape:
  "\<exists>tg out s4. gameLoop s =
        addValues tg out
          (if game_mode s4 = ''humanil'' \<or> game_mode s4 = ''closedL-auto'' then
             (let error = tg - out
              in if \<bar>error\<bar> < margin then s4\<lparr>score := score s4 + 1\<rparr> else s4)
           else s4)
      \<and> channel1 s4 = channel1 s \<and> channel2 s4 = channel2 s
      \<and> score s4 = score s \<and> game_mode s4 = game_mode s"
  unfolding gameLoop_def Let_def split_beta
  apply (rule exI, rule exI, rule exI, rule conjI, rule refl)
  apply (simp add: controller_def updateSystem_def MODE_def Let_def split_beta)
  done

lemma gameLoop_frame:
  "intervalId (gameLoop s) = intervalId s"
  "timers (gameLoop s) = timers s"
  "nextTimer (gameLoop s) = nextTimer s"
  "countdownTimer (gameLoop s) = countdownTimer s"
  "watched (gameLoop s) = watched s"
  "aborted (gameLoop s) = aborted s"
  "finished (gameLoop s) = finished s"
  "game_mode (gameLoop s) = game_mode s"
  "target_function (gameLoop s) = target_function s"
  "userInput (gameLoop s) = userInput s"
  "countdown (gameLoop s) = countdown s"
  by (simp_all add: gameLoop_unfold)

lemma gameLoop_t: "t (gameLoop s) = t s + dt"
  by (simp add: gameLoop_unfold)

lemma gameLoop_loop_active:
  "loop_active (gameLoop s) = (loop_active s \<and> \<not> timeout_seconds \<le> t s + dt)"
  by (simp add: gameLoop_unfold)

lemma gameLoop_score:
  "score (gameLoop s) =
     (if (game_mode s = ''humanil'' \<or> game_mode s = ''closedL-auto'')
         \<and> \<bar>the (last (channel1 (gameLoop s))) - the (last (channel2 (gameLoop s)))\<bar> < margin
      then score s + 1 else score s)"
proof -
  obtain tg out s4 where g: "gameLoop s =
        addValues tg out
          (if game_mode s4 = ''humanil'' \<or> game_mode s4 = ''closedL-auto'' then
             (let error = tg - out
              in if \<bar>error\<bar> < margin then s4\<lparr>score := score s4 + 1\<rparr> else s4)
           else s4)"
    and f: "score s4 = score s" "game_mode s4 = game_mode s"
    using gameLoop_shape[of s] by blast
  show ?thesis
    unfolding g by (simp add: addValues_last addValues_frame f Let_def)
qed

lemma gameLoop_score_mono: "score s \<le> score (gameLoop s)"
  by (subst gameLoop_score) simp

lemma inv_init: "inv init"
  by (simp add: inv_def init_def)

lemma inv_startStop: "inv s \<Longrightarrow> inv (flush (startStop s))"
  apply (auto simp: inv_def flush_def watch_loop_active_def startStop_def setInterval_def
      clearInterval_def Let_def split: option.splits if_splits)
  apply (metis handler.distinct(1) option.inject)+
  done

lemma inv_reset: "inv s \<Longrightarrow> inv (flush (reset s))"
  apply (auto simp: inv_def flush_def watch_loop_active_def reset_def setInterval_def
      clearInterval_def Let_def split: option.splits if_splits)
  apply (metis handler.distinct(1) option.inject)+
  done

lemma inv_countdownTick: "inv s \<Longrightarrow> inv (flush (countdownTick s))"
  apply (auto simp: inv_def flush_def watch_loop_active_def countdownTick_def setInterval_def
      clearInterval_def Let_def split: option.splits if_splits)
  apply (metis handler.distinct(1) option.inject)+
  done

lemma inv_gameLoop: "inv s \<Longrightarrow> inv (flush (gameLoop s))"
  using gameLoop_score_mono[of s]
  apply (auto simp: inv_def flush_def watch_loop_active_def setInterval_def
      clearInterval_def Let_def gameLoop_frame gameLoop_loop_active gameLoop_length
      split: option.splits if_splits)
  apply (metis handler.distinct(1) option.inject)+
  done

lemma inv_step: "inv s \<Longrightarrow> inv (step e s)"
  by (cases e)
    (auto simp: step_def inv_startStop inv_reset inv_gameLoop inv_countdownTick
      split: option.splits handler.splits, auto simp: inv_def)

lemma inv_run: "inv s \<Longrightarrow> inv (run es s)"
  by (induction es arbitrary: s) (simp_all add: inv_step)

lemma push_shift_full:
  "length xs = n \<Longrightarrow> 0 < n \<Longrightarrow>
     (if n < length (xs @ [a]) then tl (xs @ [a]) else xs @ [a]) = tl xs @ [a]"
  by (cases xs) simp_all

lemma addValues_full:
  "length (channel1 s) = listSize \<Longrightarrow> channel1 (addValues a b s) = tl (channel1 s) @ [Some a]"
  "length (channel2 s) = listSize \<Longrightarrow> channel2 (addValues a b s) = tl (channel2 s) @ [Some b]"
  unfolding addValues_channel1 addValues_channel2
  by (rule push_shift_full, assumption, simp add: listSize_val)+

lemma drop_push_shift:
  "xs \<noteq> [] \<Longrightarrow> drop n ((tl xs @ [a]) @ ys) = drop (Suc n) (xs @ a # ys)"
  by (cases xs) simp_all

lemma addAll_channels:
  "length (channel1 s) = listSize \<Longrightarrow> length (channel2 s) = listSize \<Longrightarrow>
     channel1 (addAll ps s) = drop (length ps) (channel1 s @ map (\<lambda>p. Some (fst p)) ps)
     \<and> channel2 (addAll ps s) = drop (length ps) (channel2 s @ map (\<lambda>p. Some (snd p)) ps)"
proof (induction ps arbitrary: s)
  case Nil
  then show ?case by simp
next
  case (Cons p ps)
  let ?s1 = "addValues (fst p) (snd p) s"
  have ne: "channel1 s \<noteq> []" "channel2 s \<noteq> []"
    using Cons.prems by (auto simp: listSize_val)
  have l: "length (channel1 ?s1) = listSize" "length (channel2 ?s1) = listSize"
    using Cons.prems by (simp_all add: addValues_length)
  have c: "channel1 ?s1 = tl (channel1 s) @ [Some (fst p)]"
    "channel2 ?s1 = tl (channel2 s) @ [Some (snd p)]"
    using Cons.prems by (simp_all only: addValues_full)
  note ih = Cons.IH[OF l]
  have "channel1 (addAll (p # ps) s)
      = drop (length ps) ((tl (channel1 s) @ [Some (fst p)]) @ map (\<lambda>p. Some (fst p)) ps)"
    using ih by (simp only: addAll.simps c)
  also have "\<dots> = drop (Suc (length ps)) (channel1 s @ Some (fst p) # map (\<lambda>p. Some (fst p)) ps)"
    by (rule drop_push_shift[OF ne(1)])
  finally have r1: "channel1 (addAll (p # ps) s)
      = drop (length (p # ps)) (channel1 s @ map (\<lambda>p. Some (fst p)) (p # ps))"
    by (simp only: list.map length_Cons)
  have "channel2 (addAll (p # ps) s)
      = drop (length ps) ((tl (channel2 s) @ [Some (snd p)]) @ map (\<lambda>p. Some (snd p)) ps)"
    using ih by (simp only: addAll.simps c)
  also have "\<dots> = drop (Suc (length ps)) (channel2 s @ Some (snd p) # map (\<lambda>p. Some (snd p)) ps)"
    by (rule drop_push_shift[OF ne(2)])
  finally have r2: "channel2 (addAll (p # ps) s)
      = drop (length (p # ps)) (channel2 s @ map (\<lambda>p. Some (snd p)) (p # ps))"
    by (simp only: list.map length_Cons)
  show ?case
    using r1 r2 by (rule conjI)
qed

lemma reset_channels:
  "channel1 (reset s) = replicate listSize None" "channel2 (reset s) = replicate listSize None"
  by (simp_all add: reset_def Let_def)

lemma flush_channels:
  "channel1 (flush s) = channel1 s" "channel2 (flush s) = channel2 s"
  by (simp_all add: flush_def watch_loop_active_def setInterval_def clearInterval_def Let_def
      split: option.splits)

text \<open>
  C7. In every state the component reaches, the two series have the same length, which
  does not exceed the capacity \<open>N = 200\<close>. Starting from the state \<open>reset\<close> leaves,
  after \<open>N + k\<close> appends each series holds the last \<open>N\<close> appended values in order (the
  oldest are evicted first). \<open>reset\<close>, and a click on the reset button, leave both
  series at length \<open>N\<close>, every element the no-value filler.
\<close>

theorem rolling_buffer:
  "length (channel1 (run es init)) = length (channel2 (run es init))
   \<and> length (channel1 (run es init)) \<le> 200
   \<and> (length ps = listSize + k \<longrightarrow>
        channel1 (addAll ps (reset s)) = map (\<lambda>p. Some (fst p)) (drop k ps)
        \<and> channel2 (addAll ps (reset s)) = map (\<lambda>p. Some (snd p)) (drop k ps))
   \<and> channel1 (reset s) = replicate 200 None \<and> channel2 (reset s) = replicate 200 None
   \<and> channel1 (step ClickReset s) = replicate 200 None
   \<and> channel2 (step ClickReset s) = replicate 200 None"
proof -
  have i: "inv (run es init)"
    by (rule inv_run[OF inv_init])
  have a: "length (channel1 (run es init)) = length (channel2 (run es init))"
    "length (channel1 (run es init)) \<le> 200"
    using i by (simp_all add: inv_def listSize_val)
  have b: "channel1 (addAll ps (reset s)) = map (\<lambda>p. Some (fst p)) (drop k ps)
        \<and> channel2 (addAll ps (reset s)) = map (\<lambda>p. Some (snd p)) (drop k ps)"
    if "length ps = listSize + k"
    using addAll_channels[of "reset s" ps] that
    by (simp add: reset_channels drop_map)
  show ?thesis
    using a b by (simp add: reset_channels flush_channels step_def listSize_val)
qed

theorem rolling_buffer_witness:
  "length (replicate 200 (1, 2) @ [(3, 4)] :: (real \<times> real) list) = listSize + 1
   \<and> channel1 (addAll (replicate 200 (1, 2) @ [(3, 4)]) (reset init))
       = replicate 199 (Some 1) @ [Some 3]
   \<and> channel2 (addAll (replicate 200 (1, 2) @ [(3, 4)]) (reset init))
       = replicate 199 (Some 2) @ [Some 4]
   \<and> length (channel1 (run [ClickReset] init)) = length (channel2 (run [ClickReset] init))"
  using rolling_buffer [of "[ClickReset]" "replicate 200 (1, 2) @ [(3, 4)]" 1 init]
  by (simp add: listSize_val)

section \<open>Frame of the handlers, and the score\<close>

lemma gameLoop_values:
  "last (channel1 (gameLoop s)) =
     Some (if game_mode s = ''openL'' \<or> game_mode s = ''closedL'' then userInput s / 100
           else targetFunction s (t s))"
  "last (channel2 (gameLoop s)) = Some (y1 s + dt * y2 s)"
  "y1 (gameLoop s) = y1 s + dt * y2 s"
  by (simp_all add: gameLoop_unfold addValues_last)

lemma sim_watch: "sim (watch_loop_active b s) = sim s"
  by (simp add: sim_def watch_loop_active_def setInterval_def clearInterval_def Let_def
      split: option.splits)

lemma sim_flush: "sim (flush s) = sim s"
  by (simp add: flush_def sim_watch) (simp add: sim_def)

lemma sim_startStop: "sim (startStop s) = sim s"
  by (simp add: sim_def startStop_def setInterval_def clearInterval_def Let_def
      split: option.splits)

lemma sim_countdownTick: "sim (countdownTick s) = sim s"
  by (simp add: sim_def countdownTick_def clearInterval_def Let_def split: option.splits)

lemma score_sim: "sim s' = sim s \<Longrightarrow> score s' = score s"
  by (simp add: sim_def)

lemma sim_step:
  "sim (step e s) =
     (case e of
        ClickReset \<Rightarrow> sim (reset s)
      | Fire i \<Rightarrow> if timers s i = Some GameLoop then sim (gameLoop s) else sim s
      | _ \<Rightarrow> sim s)"
  by (cases e)
    (auto simp: step_def sim_flush sim_startStop sim_countdownTick
      split: option.splits handler.splits, auto simp: sim_def)

lemma score_reset: "score (reset s) = 0"
  by (simp add: reset_def Let_def)

lemma score_step:
  "score (step e s) =
     (case e of
        ClickReset \<Rightarrow> 0
      | Fire i \<Rightarrow> if timers s i = Some GameLoop then score (gameLoop s) else score s
      | _ \<Rightarrow> score s)"
  using sim_step[of e s]
  by (cases e) (auto simp: score_reset dest!: score_sim split: if_splits)

lemma gameLoop_score_explicit:
  "score (gameLoop s) =
     (if (game_mode s = ''humanil'' \<or> game_mode s = ''closedL-auto'')
         \<and> \<bar>targetFunction s (t s) - (y1 s + dt * y2 s)\<bar> < margin
      then score s + 1 else score s)"
proof (cases "game_mode s = ''humanil'' \<or> game_mode s = ''closedL-auto''")
  case True
  then have m: "\<not> (game_mode s = ''openL'' \<or> game_mode s = ''closedL'')"
    by auto
  show ?thesis
    by (subst gameLoop_score) (simp only: gameLoop_values m if_False option.sel)
next
  case False
  then show ?thesis
    by (subst gameLoop_score) simp
qed

text \<open>
  C9. In a tick the score changes only in the modes \<open>humanil\<close> and \<open>closedL-auto\<close>, where
  it grows by exactly 1 when \<open>|target - output| < margin = 0.15\<close> and is otherwise
  unchanged; target and output are the two values the tick appends to the series (the
  target function at the clock before the tick, and the plant's new \<open>y1\<close>). In \<open>openL\<close>
  and \<open>closedL\<close> a tick leaves it as it is. The score is never negative in a state the
  component reaches, no event lowers it except a reset, which sets it to 0, and nothing
  but a reset or a game tick in a scoring mode changes it.
\<close>

theorem score_rule:
  "score (gameLoop s) =
     (if (game_mode s = ''humanil'' \<or> game_mode s = ''closedL-auto'')
         \<and> \<bar>targetFunction s (t s) - (y1 s + dt * y2 s)\<bar> < margin
      then score s + 1 else score s)
   \<and> last (channel1 (gameLoop s)) =
       Some (if game_mode s = ''openL'' \<or> game_mode s = ''closedL'' then userInput s / 100
             else targetFunction s (t s))
   \<and> last (channel2 (gameLoop s)) = Some (y1 s + dt * y2 s)
   \<and> margin = 0.15
   \<and> (game_mode s = ''openL'' \<or> game_mode s = ''closedL'' \<longrightarrow> score (gameLoop s) = score s)
   \<and> 0 \<le> score (run es init)
   \<and> (score s \<le> score (step e s) \<or> e = ClickReset \<and> score (step e s) = 0)
   \<and> (score (step e s) \<noteq> score s \<longrightarrow>
        e = ClickReset
        \<or> (\<exists>i. e = Fire i \<and> timers s i = Some GameLoop
              \<and> (game_mode s = ''humanil'' \<or> game_mode s = ''closedL-auto'')
              \<and> score (step e s) = score s + 1))"
proof -
  have a: "0 \<le> score (run es init)"
    using inv_run[OF inv_init, of es] by (simp add: inv_def)
  have b: "score s \<le> score (step e s) \<or> e = ClickReset \<and> score (step e s) = 0"
    using gameLoop_score_mono[of s] by (cases e) (simp_all add: score_step)
  have c: "e = ClickReset
        \<or> (\<exists>i. e = Fire i \<and> timers s i = Some GameLoop
              \<and> (game_mode s = ''humanil'' \<or> game_mode s = ''closedL-auto'')
              \<and> score (step e s) = score s + 1)"
    if "score (step e s) \<noteq> score s"
    using that by (cases e) (auto simp: score_step gameLoop_score_explicit split: if_splits)
  show ?thesis
    using a b c
    by (simp add: gameLoop_score_explicit gameLoop_values margin_def)
qed

theorem score_rule_witness:
  "score (gameLoop (init\<lparr>y1 := - 1 / 2, timers := (\<lambda>_. None)(1 := Some GameLoop)\<rparr>)) = 1
   \<and> score (step (Fire 1) (init\<lparr>y1 := - 1 / 2, timers := (\<lambda>_. None)(1 := Some GameLoop)\<rparr>))
       \<noteq> score (init\<lparr>y1 := - 1 / 2, timers := (\<lambda>_. None)(1 := Some GameLoop)\<rparr>)
   \<and> game_mode (init\<lparr>y1 := - 1 / 2, timers := (\<lambda>_. None)(1 := Some GameLoop)\<rparr>) = ''humanil''
   \<and> game_mode (init\<lparr>game_mode := ''openL''\<rparr>) = ''openL''
   \<and> score (gameLoop (init\<lparr>game_mode := ''openL''\<rparr>)) = 0
   \<and> score (gameLoop init) = 0
   \<and> 0 \<le> score (run [ClickReset] init)"
  using
    score_rule [of "init\<lparr>y1 := - 1 / 2, timers := (\<lambda>_. None)(1 := Some GameLoop)\<rparr>"
      "[ClickReset]" "Fire 1"]
    score_rule [of "init\<lparr>game_mode := ''openL''\<rparr>" "[ClickReset]" ClickReset]
    score_rule [of init "[ClickReset]" ClickReset]
  by (simp add: init_def targetFunction_def js_rem_def trunc_def dt_val margin_def score_step)

section \<open>Stopping, timing out and resetting\<close>

lemma inv_game_timer: "inv s \<Longrightarrow> (timers s i = Some GameLoop) = (intervalId s = Some i)"
  by (simp add: inv_def)

lemma inv_running: "inv s \<Longrightarrow> watched s = loop_active s \<and> \<not> aborted s"
  by (simp add: inv_def)


lemma flush_id: "loop_active g = watched g \<Longrightarrow> flush g = g"
  by (simp add: flush_def)

lemma flush_stop:
  assumes "\<not> loop_active g" "watched g" "intervalId g = Some i"
  shows "flush g =
    g\<lparr>watched := False, timers := (timers g)(i := None), intervalId := None,
      finished := (if aborted g then finished g else True), aborted := False\<rparr>"
  using assms by (simp add: flush_def watch_loop_active_def clearInterval_def Let_def)

lemma flush_start:
  assumes "loop_active g" "\<not> watched g"
  shows "flush g =
    g\<lparr>watched := True, timers := (timers g)(nextTimer g := Some GameLoop),
      nextTimer := nextTimer g + 1, intervalId := Some (nextTimer g)\<rparr>"
  using assms by (simp add: flush_def watch_loop_active_def setInterval_def Let_def)

lemma fire_game:
  assumes "inv s" "intervalId s = Some i"
  shows "step (Fire i) s = flush (gameLoop s)"
proof -
  have "timers s i = Some GameLoop"
    using assms by (simp add: inv_game_timer)
  then show ?thesis
    by (simp add: step_def)
qed

lemma tick_continue:
  assumes "inv s" "loop_active s" "intervalId s = Some i" "t s + dt < timeout_seconds"
  shows "step (Fire i) s = gameLoop s"
proof -
  have "loop_active (gameLoop s) = watched (gameLoop s)"
    using assms inv_running[OF assms(1)] by (simp add: gameLoop_loop_active gameLoop_frame)
  then show ?thesis
    using assms by (simp add: fire_game flush_id)
qed

lemma tick_timeout:
  assumes "inv s" "loop_active s" "intervalId s = Some i" "timeout_seconds \<le> t s + dt"
  shows "\<not> loop_active (step (Fire i) s)" "finished (step (Fire i) s)"
    "intervalId (step (Fire i) s) = None" "timers (step (Fire i) s) j \<noteq> Some GameLoop"
    "t (step (Fire i) s) = t s + dt" "timers (step (Fire i) s) i = None"
proof -
  let ?g = "gameLoop s"
  have g: "\<not> loop_active ?g" "watched ?g" "intervalId ?g = Some i" "\<not> aborted ?g"
    using assms inv_running[OF assms(1)] by (simp_all add: gameLoop_loop_active gameLoop_frame)
  have e: "step (Fire i) s =
    ?g\<lparr>watched := False, timers := (timers ?g)(i := None), intervalId := None,
      finished := True, aborted := False\<rparr>"
    using flush_stop[OF g(1-3)] g(4) assms by (simp add: fire_game)
  show "\<not> loop_active (step (Fire i) s)" "finished (step (Fire i) s)"
    "intervalId (step (Fire i) s) = None" "t (step (Fire i) s) = t s + dt"
    "timers (step (Fire i) s) i = None"
    unfolding e using g by (simp_all add: gameLoop_t)
  show "timers (step (Fire i) s) j \<noteq> Some GameLoop"
    unfolding e using assms(3) by (simp add: gameLoop_frame inv_game_timer[OF assms(1)])
qed


lemma finished_flush: "finished s \<Longrightarrow> finished (flush s)"
  by (simp add: flush_def watch_loop_active_def setInterval_def clearInterval_def Let_def
      split: option.splits)

lemma finished_countdownTick: "finished (countdownTick s) = finished s"
  by (simp add: countdownTick_def clearInterval_def Let_def split: option.splits)

lemma finished_step:
  assumes "finished s" "e \<noteq> ClickReset"
  shows "finished (step e s)"
proof (cases e)
  case (Fire i)
  show ?thesis
  proof (cases "timers s i")
    case None
    then show ?thesis using assms Fire by (simp add: step_def)
  next
    case (Some h)
    then show ?thesis
      using assms Fire
      by (cases h) (simp_all add: step_def finished_flush gameLoop_frame finished_countdownTick)
  qed
qed (use assms in \<open>simp_all add: step_def\<close>)

lemma finished_run: "finished s \<Longrightarrow> ClickReset \<notin> set es \<Longrightarrow> finished (run es s)"
  by (induction es arbitrary: s) (auto intro: finished_step[OF _ not_sym])

lemma ticks_running:
  assumes "inv s" "loop_active s" "intervalId s = Some i" "t s = 0"
  shows "k < 300 \<Longrightarrow>
    inv ((step (Fire i) ^^ k) s) \<and> loop_active ((step (Fire i) ^^ k) s)
    \<and> intervalId ((step (Fire i) ^^ k) s) = Some i
    \<and> t ((step (Fire i) ^^ k) s) = real k * dt"
proof (induction k)
  case 0
  then show ?case using assms by simp
next
  case (Suc k)
  let ?s = "(step (Fire i) ^^ k) s"
  have ih: "inv ?s" "loop_active ?s" "intervalId ?s = Some i" "t ?s = real k * dt"
    using Suc by simp_all
  have lt: "t ?s + dt < timeout_seconds"
    using Suc.prems ih(4) by (simp add: dt_val timeout_seconds_def)
  have e: "(step (Fire i) ^^ Suc k) s = gameLoop ?s"
    using tick_continue[OF ih(1-3) lt] by simp
  have "inv ((step (Fire i) ^^ Suc k) s)"
    using inv_step[OF ih(1), of "Fire i"] by simp
  moreover have "loop_active (gameLoop ?s)"
    using ih(2) lt by (simp add: gameLoop_loop_active)
  moreover have "intervalId (gameLoop ?s) = Some i"
    using ih(3) by (simp add: gameLoop_frame)
  moreover have "t (gameLoop ?s) = real (Suc k) * dt"
    using ih(4) by (simp add: gameLoop_t algebra_simps)
  ultimately show ?case
    unfolding e by simp
qed


lemma auto_started:
  "run [SetGameMode ''closedL-auto'', ClickStartStop] init =
     init\<lparr>game_mode := ''closedL-auto'', loop_active := True, intervalId := Some 1,
       watched := True, timers := (\<lambda>_. None)(1 := Some GameLoop), nextTimer := 2\<rparr>"
  by (simp add: step_def startStop_def flush_def watch_loop_active_def setInterval_def
      init_def)




lemma ticks_fixed:
  "step (Fire i) s = s \<Longrightarrow> (step (Fire i) ^^ n) s = s"
  by (induction n) simp_all

text \<open>
  C8. While the loop runs, each tick advances \<open>t\<close> by \<open>dt = 0.05\<close>; a tick that leaves
  \<open>t < 15\<close> keeps the loop running, and a tick that brings \<open>t\<close> to \<open>timeout_seconds = 15\<close>
  or more still completes, after which the loop is inactive, the game interval is
  cancelled and \<open>finished\<close> is set, so that the start/stop button does nothing and
  \<open>finished\<close> stays set under every sequence of events without a reset. From \<open>t = 0\<close>
  the loop is active before each of the first 300 ticks, the 300th brings \<open>t\<close> to 15 and
  stops it, and further firings of the interval do not change the state.
\<close>

theorem timeout_rule:
  assumes "s = run es init" "loop_active s" "intervalId s = Some i"
  shows "t (step (Fire i) s) = t s + 0.05
    \<and> (t s + 0.05 < 15 \<longrightarrow>
          loop_active (step (Fire i) s) \<and> intervalId (step (Fire i) s) = Some i
          \<and> finished (step (Fire i) s) = finished s)
    \<and> (15 \<le> t s + 0.05 \<longrightarrow>
          \<not> loop_active (step (Fire i) s) \<and> finished (step (Fire i) s)
          \<and> intervalId (step (Fire i) s) = None
          \<and> (\<forall>j. timers (step (Fire i) s) j \<noteq> Some GameLoop)
          \<and> step ClickStartStop (step (Fire i) s) = step (Fire i) s
          \<and> (\<forall>es'. ClickReset \<notin> set es' \<longrightarrow> finished (run es' (step (Fire i) s))))
    \<and> (t s = 0 \<longrightarrow>
          (\<forall>k<300. loop_active ((step (Fire i) ^^ k) s)
              \<and> t ((step (Fire i) ^^ k) s) = real k * 0.05)
          \<and> t ((step (Fire i) ^^ 300) s) = 15
          \<and> \<not> loop_active ((step (Fire i) ^^ 300) s)
          \<and> finished ((step (Fire i) ^^ 300) s)
          \<and> intervalId ((step (Fire i) ^^ 300) s) = None
          \<and> (\<forall>j. timers ((step (Fire i) ^^ 300) s) j \<noteq> Some GameLoop)
          \<and> (\<forall>n. (step (Fire i) ^^ (300 + n)) s = (step (Fire i) ^^ 300) s))"
proof -
  have i: "inv s"
    unfolding assms(1) by (rule inv_run[OF inv_init])
  have one: "\<not> loop_active (step (Fire i) u) \<and> finished (step (Fire i) u)
      \<and> intervalId (step (Fire i) u) = None
      \<and> (\<forall>j. timers (step (Fire i) u) j \<noteq> Some GameLoop)
      \<and> t (step (Fire i) u) = t u + dt
      \<and> step ClickStartStop (step (Fire i) u) = step (Fire i) u
      \<and> step (Fire i) (step (Fire i) u) = step (Fire i) u
      \<and> (\<forall>es'. ClickReset \<notin> set es' \<longrightarrow> finished (run es' (step (Fire i) u)))"
    if u: "inv u" "loop_active u" "intervalId u = Some i" "timeout_seconds \<le> t u + dt" for u
  proof -
    note tt = tick_timeout[OF u]
    have "step ClickStartStop (step (Fire i) u) = step (Fire i) u"
      using tt(2) by (simp add: step_def[of ClickStartStop "step (Fire i) u"])
    moreover have "step (Fire i) (step (Fire i) u) = step (Fire i) u"
      using tt(6) by (simp add: step_def[of "Fire i" "step (Fire i) u"])
    ultimately show ?thesis
      using tt by (simp add: finished_run)
  qed
  have a: "t (step (Fire i) s) = t s + 0.05"
    using fire_game[OF i assms(3)] sim_flush[of "gameLoop s"]
    by (simp add: sim_def gameLoop_t dt_val)
  have b: "loop_active (step (Fire i) s) \<and> intervalId (step (Fire i) s) = Some i
      \<and> finished (step (Fire i) s) = finished s"
    if "t s + 0.05 < 15"
    using that tick_continue[OF i assms(2,3)] assms(2,3)
    by (simp add: dt_val timeout_seconds_def gameLoop_loop_active gameLoop_frame)
  have c: "\<not> loop_active (step (Fire i) s) \<and> finished (step (Fire i) s)
      \<and> intervalId (step (Fire i) s) = None
      \<and> (\<forall>j. timers (step (Fire i) s) j \<noteq> Some GameLoop)
      \<and> step ClickStartStop (step (Fire i) s) = step (Fire i) s
      \<and> (\<forall>es'. ClickReset \<notin> set es' \<longrightarrow> finished (run es' (step (Fire i) s)))"
    if "15 \<le> t s + 0.05"
    using that one[OF i assms(2,3)] by (simp add: dt_val timeout_seconds_def)
  have d: "(\<forall>k<300. loop_active ((step (Fire i) ^^ k) s)
              \<and> t ((step (Fire i) ^^ k) s) = real k * 0.05)
          \<and> t ((step (Fire i) ^^ 300) s) = 15
          \<and> \<not> loop_active ((step (Fire i) ^^ 300) s)
          \<and> finished ((step (Fire i) ^^ 300) s)
          \<and> intervalId ((step (Fire i) ^^ 300) s) = None
          \<and> (\<forall>j. timers ((step (Fire i) ^^ 300) s) j \<noteq> Some GameLoop)
          \<and> (\<forall>n. (step (Fire i) ^^ (300 + n)) s = (step (Fire i) ^^ 300) s)"
    if t0: "t s = 0"
  proof -
    note r = ticks_running[OF i assms(2,3) t0]
    have k: "\<forall>k<300. loop_active ((step (Fire i) ^^ k) s)
              \<and> t ((step (Fire i) ^^ k) s) = real k * 0.05"
      using r by (simp add: dt_val)
    let ?u = "(step (Fire i) ^^ 299) s"
    have u: "inv ?u" "loop_active ?u" "intervalId ?u = Some i" "t ?u = 299 * dt"
      using r[of 299] by simp_all
    have to: "timeout_seconds \<le> t ?u + dt"
      using u(4) by (simp add: dt_val timeout_seconds_def)
    have "(300::nat) = Suc 299"
      by simp
    then have e: "(step (Fire i) ^^ 300) s = step (Fire i) ?u"
      by (simp only: funpow.simps o_apply)
    note o = one[OF u(1-3) to]
    have fixed: "\<forall>n. (step (Fire i) ^^ (300 + n)) s = (step (Fire i) ^^ 300) s"
    proof
      fix n
      have "(step (Fire i) ^^ (n + 300)) s = (step (Fire i) ^^ n) ((step (Fire i) ^^ 300) s)"
        by (simp only: funpow_add o_apply)
      also have "\<dots> = (step (Fire i) ^^ 300) s"
        unfolding e using o by (intro ticks_fixed) simp
      finally show "(step (Fire i) ^^ (300 + n)) s = (step (Fire i) ^^ 300) s"
        by (simp only: add.commute[of 300 n])
    qed
    have t300: "t ((step (Fire i) ^^ 300) s) = 15"
    proof -
      have "t (step (Fire i) ?u) = t ?u + dt"
        using o by simp
      then show ?thesis
        unfolding e using u(4) by (simp add: dt_val)
    qed
    have o300: "\<not> loop_active ((step (Fire i) ^^ 300) s)"
      "finished ((step (Fire i) ^^ 300) s)"
      "intervalId ((step (Fire i) ^^ 300) s) = None"
      "\<forall>j. timers ((step (Fire i) ^^ 300) s) j \<noteq> Some GameLoop"
      unfolding e using o by simp_all
    note all = k t300 o300 fixed
    show ?thesis
      by (intro conjI all)
  qed
  show ?thesis
    using a b c d by blast
qed

theorem timeout_rule_witness:
  "loop_active (run [SetGameMode ''closedL-auto'', ClickStartStop] init)
   \<and> intervalId (run [SetGameMode ''closedL-auto'', ClickStartStop] init) = Some 1
   \<and> t (run [SetGameMode ''closedL-auto'', ClickStartStop] init) = 0
   \<and> t (step (Fire 1) (run [SetGameMode ''closedL-auto'', ClickStartStop] init)) = 0.05
   \<and> loop_active (step (Fire 1) (run [SetGameMode ''closedL-auto'', ClickStartStop] init))
   \<and> loop_active
        ((step (Fire 1) ^^ 299) (run [SetGameMode ''closedL-auto'', ClickStartStop] init))
   \<and> t ((step (Fire 1) ^^ 300) (run [SetGameMode ''closedL-auto'', ClickStartStop] init)) = 15
   \<and> finished
        ((step (Fire 1) ^^ 300) (run [SetGameMode ''closedL-auto'', ClickStartStop] init))
   \<and> \<not> loop_active
        ((step (Fire 1) ^^ 300) (run [SetGameMode ''closedL-auto'', ClickStartStop] init))"
proof -
  let ?s = "run [SetGameMode ''closedL-auto'', ClickStartStop] init"
  have a: "loop_active ?s" "intervalId ?s = Some 1" "t ?s = 0"
    unfolding auto_started by (simp_all add: init_def)
  note th = timeout_rule[OF refl a(1,2)]
  have "(299::nat) < 300"
    by simp
  then have "loop_active ((step (Fire 1) ^^ 299) ?s)"
    using th a(3) by blast
  moreover have "t (step (Fire 1) ?s) = 0.05" "loop_active (step (Fire 1) ?s)"
    using th a(3) by simp_all
  moreover have "t ((step (Fire 1) ^^ 300) ?s) = 15" "finished ((step (Fire 1) ^^ 300) ?s)"
    "\<not> loop_active ((step (Fire 1) ^^ 300) ?s)"
    using th a(3) by blast+
  ultimately show ?thesis
    using a by (intro conjI)
qed

text \<open>
  C10. Stopping a run does not touch the simulation state: neither \<open>startStop\<close>, nor the
  watcher (which performs the stop, after a press as after the tick that timed out), nor
  the countdown changes the clock, the plant state, the controller state, the score or
  the two series, and the same holds of every event but a reset and a game tick.
  \<open>reset\<close> clears them all. The first tick of a later run therefore continues from
  the stored clock and plant state.
\<close>

theorem stop_keeps_simulation_state:
  "sim (startStop s) = sim s
   \<and> sim (watch_loop_active b s) = sim s
   \<and> sim (flush s) = sim s
   \<and> sim (countdownTick s) = sim s
   \<and> sim (step ClickStartStop s) = sim s
   \<and> (timers s i = Some GameLoop \<longrightarrow> sim (step (Fire i) s) = sim (gameLoop s))
   \<and> (e \<noteq> ClickReset \<and> (\<forall>j. e = Fire j \<longrightarrow> timers s j \<noteq> Some GameLoop) \<longrightarrow>
        sim (step e s) = sim s)
   \<and> sim (reset s) = (0, 0, 0, 0, 0, 0, replicate listSize None, replicate listSize None)
   \<and> t (gameLoop s) = t s + dt
   \<and> y1 (gameLoop s) = y1 s + dt * y2 s"
proof -
  have a: "sim (step e s) = sim s"
    if "e \<noteq> ClickReset \<and> (\<forall>j. e = Fire j \<longrightarrow> timers s j \<noteq> Some GameLoop)"
    using that by (cases e) (simp_all add: sim_step)
  have b: "sim (reset s) = (0, 0, 0, 0, 0, 0, replicate listSize None, replicate listSize None)"
    by (simp add: sim_def reset_def Let_def)
  show ?thesis
    using a b
    by (simp add: sim_startStop sim_watch sim_flush sim_countdownTick sim_step gameLoop_t
        gameLoop_values)
qed

theorem stop_keeps_simulation_state_witness:
  "timers (run [SetGameMode ''closedL-auto'', ClickStartStop] init) 1 = Some GameLoop
   \<and> sim (step (Fire 1) (run [SetGameMode ''closedL-auto'', ClickStartStop] init))
       = sim (gameLoop (run [SetGameMode ''closedL-auto'', ClickStartStop] init))
   \<and> sim (step ClickStartStop (run [SetGameMode ''closedL-auto'', ClickStartStop] init))
       = sim (run [SetGameMode ''closedL-auto'', ClickStartStop] init)
   \<and> sim (step (SetUserInput 5) (run [SetGameMode ''closedL-auto'', ClickStartStop] init))
       = sim (run [SetGameMode ''closedL-auto'', ClickStartStop] init)"
proof -
  let ?s = "run [SetGameMode ''closedL-auto'', ClickStartStop] init"
  have a: "timers ?s 1 = Some GameLoop"
    unfolding auto_started by (simp add: init_def)
  show ?thesis
    using a stop_keeps_simulation_state[of ?s True 1 "SetUserInput 5"]
    by simp
qed

text \<open>
  C2 at a reset pressed during the countdown: \<open>reset\<close> does not cancel the countdown
  interval, which is still active after it, and when it runs out the loop starts without
  a new press of the start button.
\<close>

theorem reset_during_countdown:
  "countdownTimer (run [ClickStartStop, ClickReset] init) = Some 1
   \<and> countdown (run [ClickStartStop, ClickReset] init) = 3
   \<and> timers (run [ClickStartStop, ClickReset] init) 1 = Some Countdown
   \<and> loop_active (run [ClickStartStop, ClickReset, Fire 1, Fire 1, Fire 1] init)
   \<and> intervalId (run [ClickStartStop, ClickReset, Fire 1, Fire 1, Fire 1] init) = Some 2
   \<and> timers (run [ClickStartStop, ClickReset, Fire 1, Fire 1, Fire 1] init) 2 = Some GameLoop"
  by (simp add: step_def startStop_def reset_def flush_def watch_loop_active_def
      setInterval_def clearInterval_def countdownTick_def countdown_seconds_def init_def
      Let_def)

text \<open>
  A run that resumes after a stop: a countdown is started, the mode is switched to
  \<open>closedL-auto\<close> and the run is started and stopped by the user after one tick; the
  countdown, still pending, then restarts the loop, and the next tick continues from
  the stored clock.
\<close>

lemma run_resumes_after_stop:
  "finished (run [ClickStartStop, SetGameMode ''closedL-auto'', ClickStartStop, Fire 2,
       ClickStartStop] init)
   \<and> \<not> loop_active (run [ClickStartStop, SetGameMode ''closedL-auto'', ClickStartStop, Fire 2,
       ClickStartStop] init)
   \<and> t (run [ClickStartStop, SetGameMode ''closedL-auto'', ClickStartStop, Fire 2,
       ClickStartStop] init) = dt
   \<and> loop_active (run [ClickStartStop, SetGameMode ''closedL-auto'', ClickStartStop, Fire 2,
       ClickStartStop, Fire 1, Fire 1, Fire 1] init)
   \<and> t (run [ClickStartStop, SetGameMode ''closedL-auto'', ClickStartStop, Fire 2,
       ClickStartStop, Fire 1, Fire 1, Fire 1, Fire 3] init) = dt + dt"
  by (simp add: step_def startStop_def flush_def watch_loop_active_def
      setInterval_def clearInterval_def countdownTick_def countdown_seconds_def init_def
      Let_def gameLoop_frame gameLoop_t gameLoop_loop_active dt_val timeout_seconds_def)

end
